theory Spec2Isabelle
  imports Main "HOL-Library.Word" "HOL-Library.Multiset"
begin

section \<open>The JNI binding of java.text.Bidi (java\_text\_Bidi.cpp)\<close>

text \<open>
  The file is glue between Java and ICU's ubidi library. The binding functions
  (\<open>Bidi_ubidi_*\<close>) are translated from the C++ source. The ICU entry points they call
  (\<open>ubidi_*\<close>) are not part of the source file: every binding function takes the entry
  points it calls as its first arguments, so that what is proved about a binding function
  with an arbitrary entry point holds whatever ICU does. Where a claim is about what ICU
  itself computes, the entry point is modelled from the specification, and marked so.
\<close>

subsection \<open>Data\<close>

text \<open>
  \<open>jbyte\<close> is a signed and \<open>UBiDiLevel\<close> an unsigned 8-bit integer; the source passes
  from one to the other by \<open>reinterpret_cast\<close>, which keeps the bits, so both are
  \<open>8 word\<close> and a level is read with \<open>unat\<close>. A \<open>jint\<close> is an \<open>int\<close>: the
  functions modelled here do no arithmetic on one. A Java array reference is an
  \<open>option\<close>: \<open>None\<close> is \<open>null\<close>.
\<close>

type_synonym jbyte = "8 word"
type_synonym jchar = "16 word"
type_synonym UBiDiLevel = "8 word"

text \<open>
  What a native function can do other than return: a pending Java exception raised by
  \<open>maybeThrowIcuException\<close> (with the kind of error), and the three places where the
  C++ leaves defined behaviour: an array allocated with a negative size, a JNI region
  copy outside the bounds of the Java array (JNI raises ArrayIndexOutOfBounds and copies
  nothing), and a buffer handed to ICU with a length beyond its end.
\<close>

datatype error_kind = InvalidArgument | ResourceExhausted | Unsupported

datatype failure =
    IcuException error_kind
  | NegativeArraySize
  | ArrayIndexOutOfBounds
  | ReadPastEnd

subsection \<open>Visual reordering\<close>

text \<open>
  One pass of the reordering: scanning levels and permutation together from the left,
  every maximal range of positions whose level satisfies \<open>P\<close> has its segment of the
  permutation reversed. \<open>run\<close> is the segment of the range that is open, already
  reversed.
\<close>

fun reverse_runs :: "('l \<Rightarrow> bool) \<Rightarrow> 'l list \<Rightarrow> 'a list \<Rightarrow> 'a list \<Rightarrow> 'a list" where
  "reverse_runs P (l # ls) (x # xs) run =
     (if P l then reverse_runs P ls xs (x # run)
      else run @ x # reverse_runs P ls xs [])"
| "reverse_runs P ls xs run = run @ xs"

definition max_level :: "UBiDiLevel list \<Rightarrow> nat" where
  "max_level levels = fold (\<lambda>l m. max (unat l) m) levels 0"

definition reorder_pass :: "UBiDiLevel list \<Rightarrow> nat \<Rightarrow> int list \<Rightarrow> int list" where
  "reorder_pass levels L perm = reverse_runs (\<lambda>l. L \<le> unat l) levels perm []"

text \<open>
  Modelled from the spec: \<open>ubidi_reorderVisual\<close> is a function of ICU, absent from the
  sources. Section 4.4 of the specification: the permutation starts as the identity;
  then, for each threshold \<open>L\<close> from the maximum level down to 1, every maximal run of
  levels \<open>\<ge> L\<close> has its sub-range of the current permutation reversed. The C function
  receives a pointer and a length: the model works on the first \<open>len\<close> levels and
  returns the \<open>len\<close> entries it leaves in the index map.
\<close>

definition ubidi_reorderVisual :: "UBiDiLevel list \<Rightarrow> int \<Rightarrow> int list" where
  "ubidi_reorderVisual levels len =
     (let ls = take (nat len) levels
      in fold (reorder_pass ls) (rev [1 ..< Suc (max_level ls)]) (map int [0 ..< length ls]))"

text \<open>
  \<open>Bidi_ubidi_reorderVisual(env, javaLevels, length)\<close>, lines 163 to 177. The null
  check of the level array comes first; then an index map of \<open>length\<close> ints is
  allocated, filled by ICU, and its \<open>length\<close> entries are copied into a new Java array.
  The first argument is ICU's \<open>ubidi_reorderVisual\<close>.
\<close>

definition Bidi_ubidi_reorderVisual ::
  "(UBiDiLevel list \<Rightarrow> int \<Rightarrow> int list) \<Rightarrow> jbyte list option \<Rightarrow> int \<Rightarrow> failure + int list option" where
  "Bidi_ubidi_reorderVisual reorderVisual javaLevels len =
     (case javaLevels of
        None \<Rightarrow> Inr None
      | Some levelBytes \<Rightarrow>
          if len < 0 then Inl NegativeArraySize
          else if int (length levelBytes) < len then Inl ReadPastEnd
          else Inr (Some (take (nat len) (reorderVisual levelBytes len))))"

subsection \<open>Error codes\<close>

text \<open>
  Modelled from the spec: \<open>UErrorCode\<close> is a type of ICU and \<open>maybeThrowIcuException\<close>
  a helper of this repository (IcuUtilities), both absent from the sources. Section 7 of
  the specification names the kinds of error; section 1 says the binding translates
  error codes. \<open>U_ZERO_ERROR\<close> is success, as in line 90 of the source; any other code
  carries its kind, and the helper raises the exception of that kind and returns true
  (\<open>Some\<close>) exactly for a code other than \<open>U_ZERO_ERROR\<close>.
\<close>

datatype UErrorCode = U_ZERO_ERROR | U_ERROR error_kind

fun maybeThrowIcuException :: "string \<Rightarrow> UErrorCode \<Rightarrow> error_kind option" where
  "maybeThrowIcuException function U_ZERO_ERROR = None"
| "maybeThrowIcuException function (U_ERROR kind) = Some kind"

subsection \<open>Runs\<close>

text \<open>
  \<open>Bidi_ubidi_countRuns(env, ptr)\<close>, lines 131 to 136: the count of ICU is returned
  whether or not an exception was raised for the status. The first argument is ICU's
  \<open>ubidi_countRuns\<close>, which gives the count and the status it leaves in \<open>&status\<close>.
\<close>

definition Bidi_ubidi_countRuns ::
  "('u \<Rightarrow> int \<times> UErrorCode) \<Rightarrow> 'u \<Rightarrow> int \<times> error_kind option" where
  "Bidi_ubidi_countRuns countRuns ubidi =
     (case countRuns ubidi of
        (cnt, status) \<Rightarrow> (cnt, maybeThrowIcuException ''ubidi_countRuns'' status))"

text \<open>The Java object \<open>Bidi.Run\<close>, built by its constructor \<open>(III)V\<close>.\<close>

datatype Run = Run (getStart: int) (getLimit: int) (getLevel: int)

text \<open>
  The loop of \<open>Bidi_ubidi_getRuns\<close>, lines 154 to 159. \<open>n\<close> is \<open>runCount - i\<close>, the
  number of iterations left. ICU's \<open>ubidi_getLogicalRun(ubidi, start, &limit, &level)\<close>
  writes through two pointers, or leaves them alone: it is a function from the position
  and the values of \<open>limit\<close> and \<open>level\<close> before the call to their values after it.
  The level is widened to a \<open>jint\<close> for the constructor.
\<close>

fun getRuns_loop ::
  "(int \<Rightarrow> int \<times> UBiDiLevel \<Rightarrow> int \<times> UBiDiLevel) \<Rightarrow> nat \<Rightarrow> int \<Rightarrow> int \<Rightarrow> UBiDiLevel \<Rightarrow> Run list" where
  "getRuns_loop getLogicalRun 0 start limit level = []"
| "getRuns_loop getLogicalRun (Suc n) start limit level =
     (case getLogicalRun start (limit, level) of
        (limit', level') \<Rightarrow>
          Run start limit' (uint level') # getRuns_loop getLogicalRun n limit' limit' level')"

text \<open>
  \<open>Bidi_ubidi_getRuns(env, ptr)\<close>, lines 141 to 161. The first two arguments are ICU's
  \<open>ubidi_countRuns\<close> and \<open>ubidi_getLogicalRun\<close>. A failing status returns null with
  the exception pending; a negative count cannot be the size of the object array.
\<close>

definition Bidi_ubidi_getRuns ::
  "('u \<Rightarrow> int \<times> UErrorCode) \<Rightarrow> ('u \<Rightarrow> int \<Rightarrow> int \<times> UBiDiLevel \<Rightarrow> int \<times> UBiDiLevel) \<Rightarrow> 'u
     \<Rightarrow> failure + Run list" where
  "Bidi_ubidi_getRuns countRuns getLogicalRun ubidi =
     (case countRuns ubidi of
        (runCount, status) \<Rightarrow>
          (case maybeThrowIcuException ''ubidi_countRuns'' status of
             Some kind \<Rightarrow> Inl (IcuException kind)
           | None \<Rightarrow>
               if runCount < 0 then Inl NegativeArraySize
               else Inr (getRuns_loop (getLogicalRun ubidi) (nat runCount) 0 0 0)))"

text \<open>
  Modelled from the spec: the \<open>UBiDi\<close> object is a type of ICU, absent from the sources.
  Of the resolved paragraph or line of section 3 of the specification, the run extractor
  uses the resolved level array only.
\<close>

record UBiDi =
  resolved_levels :: "UBiDiLevel list"

text \<open>The run boundaries of a single scan from the left: the places where the level changes.\<close>

fun count_boundaries :: "UBiDiLevel list \<Rightarrow> nat" where
  "count_boundaries (a # b # ls) = (if a \<noteq> b then 1 else 0) + count_boundaries (b # ls)"
| "count_boundaries ls = 0"

text \<open>
  Modelled from the spec: \<open>ubidi_countRuns\<close> is a function of ICU, absent from the
  sources. Section 4.3 of the specification: a run boundary occurs wherever the level
  value changes in a single left-to-right scan, and the count of runs is the count of
  such boundaries plus one for a nonempty input, zero for an empty one; the run
  extractor has no failure on a resolved object.
\<close>

definition ubidi_countRuns :: "UBiDi \<Rightarrow> int \<times> UErrorCode" where
  "ubidi_countRuns ubidi =
     (case resolved_levels ubidi of
        [] \<Rightarrow> (0, U_ZERO_ERROR)
      | l # ls \<Rightarrow> (int (count_boundaries (l # ls)) + 1, U_ZERO_ERROR))"

text \<open>
  Modelled from the spec: \<open>ubidi_getLogicalRun\<close> is a function of ICU, absent from the
  sources. Section 4.3 of the specification, the stepwise extractor: from a cursor inside
  the level array, the run is the maximal range from the cursor on with the level found
  at the cursor, and its limit is the next cursor. A cursor outside the array writes
  nothing.
\<close>

definition ubidi_getLogicalRun :: "UBiDi \<Rightarrow> int \<Rightarrow> int \<times> UBiDiLevel \<Rightarrow> int \<times> UBiDiLevel" where
  "ubidi_getLogicalRun ubidi logicalPosition out =
     (let ls = resolved_levels ubidi
      in if 0 \<le> logicalPosition \<and> logicalPosition < int (length ls)
         then (let p = nat logicalPosition; l = ls ! p
               in (int (p + length (takeWhile (\<lambda>x. x = l) (drop p ls))), l))
         else out)"

subsection \<open>Paragraphs\<close>

text \<open>
  \<open>struct BiDiData\<close>, lines 31 to 58: the ICU object and the native copy of the
  embedding levels, a \<open>unique_ptr\<close> that is null (\<open>None\<close>) or owns an array.
\<close>

record 'u BiDiData =
  mBiDi :: 'u
  mEmbeddingLevels :: "jbyte list option"

definition embeddingLevels :: "'u BiDiData \<Rightarrow> UBiDiLevel list option" where
  "embeddingLevels data = mEmbeddingLevels data"

definition setEmbeddingLevels :: "'u BiDiData \<Rightarrow> jbyte list option \<Rightarrow> 'u BiDiData" where
  "setEmbeddingLevels data newEmbeddingLevels = data\<lparr>mEmbeddingLevels := newEmbeddingLevels\<rparr>"

definition uBiDi :: "'u BiDiData \<Rightarrow> 'u" where
  "uBiDi data = mBiDi data"

text \<open>
  JNI's \<open>GetByteArrayRegion(array, start, len, buf)\<close>: the region of \<open>len\<close> elements
  from \<open>start\<close> is copied into the buffer; when the region is not inside the array,
  ArrayIndexOutOfBoundsException is raised and nothing is copied (\<open>None\<close>).
\<close>

definition GetByteArrayRegion :: "jbyte list \<Rightarrow> int \<Rightarrow> int \<Rightarrow> jbyte list option" where
  "GetByteArrayRegion array start len =
     (if start < 0 \<or> len < 0 \<or> int (length array) < start + len then None
      else Some (take (nat len) (drop (nat start) array)))"

text \<open>
  \<open>Bidi_ubidi_setPara(env, ptr, text, length, paraLevel, newEmbeddingLevels)\<close>, lines 76
  to 93. The first argument is ICU's \<open>ubidi_setPara(pBiDi, text, length, paraLevel,
  embeddingLevels, &err)\<close>: from the object, the characters, the length, the paragraph
  level (narrowed from \<open>jint\<close> to \<open>UBiDiLevel\<close>) and the pointer to the native levels
  (null or \<open>length\<close> bytes) it gives the object and the status after the call.
  The binding compares the length of \<open>newEmbeddingLevels\<close> with nothing: it allocates
  \<open>length\<close> bytes and copies the region \<open>[0, length)\<close> of the Java array into them.
  When that copy fails the C++ goes on with the exception pending and the buffer not
  written; the model stops there with \<open>ArrayIndexOutOfBounds\<close>. A null \<open>text\<close>
  returns after the levels were stored. The result is the \<open>BiDiData\<close> after the call
  and the exception raised for ICU's status, if any.
\<close>

definition Bidi_ubidi_setPara ::
  "('u \<Rightarrow> jchar list \<Rightarrow> int \<Rightarrow> UBiDiLevel \<Rightarrow> UBiDiLevel list option \<Rightarrow> 'u \<times> UErrorCode)
     \<Rightarrow> 'u BiDiData \<Rightarrow> jchar list option \<Rightarrow> int \<Rightarrow> int \<Rightarrow> jbyte list option
     \<Rightarrow> failure + 'u BiDiData \<times> error_kind option" where
  "Bidi_ubidi_setPara setPara data text len paraLevel newEmbeddingLevels =
     (case (case newEmbeddingLevels of
              Some array \<Rightarrow>
                if len < 0 then Inl NegativeArraySize
                else (case GetByteArrayRegion array 0 len of
                        None \<Rightarrow> Inl ArrayIndexOutOfBounds
                      | Some dst \<Rightarrow> Inr (setEmbeddingLevels data (Some dst)))
            | None \<Rightarrow> Inr (setEmbeddingLevels data None)) of
        Inl f \<Rightarrow> Inl f
      | Inr data' \<Rightarrow>
          (case text of
             None \<Rightarrow> Inr (data', None)
           | Some chars \<Rightarrow>
               (case setPara (uBiDi data') chars len (word_of_int paraLevel) (embeddingLevels data') of
                  (ubidi', err) \<Rightarrow>
                    Inr (data'\<lparr>mBiDi := ubidi'\<rparr>, maybeThrowIcuException ''ubidi_setPara'' err))))"

section \<open>Properties\<close>

subsection \<open>Visual reordering\<close>

lemma mset_reverse_runs: "mset (reverse_runs P ls xs run) = mset run + mset xs"
  by (induction P ls xs run rule: reverse_runs.induct) auto

lemma mset_reorder_pass: "mset (reorder_pass ls L perm) = mset perm"
  by (simp add: reorder_pass_def mset_reverse_runs)

lemma mset_fold_reorder_pass: "mset (fold (reorder_pass ls) Ls perm) = mset perm"
  by (induction Ls arbitrary: perm) (simp_all add: mset_reorder_pass)

lemma mset_ubidi_reorderVisual:
  "mset (ubidi_reorderVisual levels (int (length levels))) = mset (map int [0 ..< length levels])"
  by (simp add: ubidi_reorderVisual_def mset_fold_reorder_pass)

lemma length_ubidi_reorderVisual:
  "length (ubidi_reorderVisual levels (int (length levels))) = length levels"
proof -
  have "size (mset (ubidi_reorderVisual levels (int (length levels)))) = length levels"
    by (simp only: mset_ubidi_reorderVisual size_mset length_map length_upt)
  then show ?thesis by simp
qed

lemma sorted_identity: "sorted (map int [0 ..< n])"
  by (simp add: sorted_map sorted_wrt_iff_nth_less)

lemma fold_max_replicate_0: "fold (\<lambda>l m. max (unat l) m) (replicate n (0 :: UBiDiLevel)) m = m"
  by (induction n) simp_all

lemma max_level_replicate_0: "max_level (replicate n 0) = 0"
  unfolding max_level_def by (rule fold_max_replicate_0)

lemma ubidi_reorderVisual_all_zero:
  "ubidi_reorderVisual (replicate n 0) (int n) = map int [0 ..< n]"
  by (simp add: ubidi_reorderVisual_def Let_def max_level_replicate_0)

text \<open>
  C1. For every level array \<open>L\<close> of length \<open>n\<close>, the permutation returned by
  \<open>reorderVisual(L)\<close> is a bijection on \<open>[0, n)\<close>: the call returns an array, of
  length \<open>n\<close>, whose sorted values are \<open>0, 1, ..., n - 1\<close>.
\<close>

theorem reorderVisual_bijection:
  "\<exists>p. Bidi_ubidi_reorderVisual ubidi_reorderVisual (Some L) (int (length L)) = Inr (Some p)
     \<and> length p = length L
     \<and> sort p = map int [0 ..< length L]"
proof -
  let ?p = "ubidi_reorderVisual L (int (length L))"
  have call: "Bidi_ubidi_reorderVisual ubidi_reorderVisual (Some L) (int (length L)) = Inr (Some ?p)"
    by (simp add: Bidi_ubidi_reorderVisual_def length_ubidi_reorderVisual)
  have "sort ?p = map int [0 ..< length L]"
    by (rule properties_for_sort) (simp_all add: mset_ubidi_reorderVisual sorted_identity)
  with call length_ubidi_reorderVisual show ?thesis by blast
qed

text \<open>
  C7. For every length \<open>n\<close>, \<open>reorderVisual\<close> applied to the all-zero level array of
  length \<open>n\<close> returns the identity permutation, which maps every position \<open>i\<close> to \<open>i\<close>.
\<close>

theorem reorderVisual_all_zero_identity:
  "Bidi_ubidi_reorderVisual ubidi_reorderVisual (Some (replicate n 0)) (int n)
     = Inr (Some (map int [0 ..< n]))"
  by (simp add: Bidi_ubidi_reorderVisual_def ubidi_reorderVisual_all_zero)

text \<open>
  C10. When \<open>reorderVisual\<close> is invoked with a null level array it returns null and no
  permutation, for every requested length and whatever ICU's reordering function is.
\<close>

theorem reorderVisual_null_levels:
  "Bidi_ubidi_reorderVisual reorderVisual None len = Inr None"
  by (simp add: Bidi_ubidi_reorderVisual_def)

subsection \<open>Runs\<close>

lemma count_boundaries_card:
  "count_boundaries ls = card {i. Suc i < length ls \<and> ls ! i \<noteq> ls ! Suc i}"
proof (induction ls rule: count_boundaries.induct)
  case (1 a b ls)
  let ?S = "{i. Suc i < length (a # b # ls) \<and> (a # b # ls) ! i \<noteq> (a # b # ls) ! Suc i}"
  let ?T = "{i. Suc i < length (b # ls) \<and> (b # ls) ! i \<noteq> (b # ls) ! Suc i}"
  have fin: "finite ?T" by simp
  have split: "?S = (if a \<noteq> b then {0} else {}) \<union> Suc ` ?T"
  proof (rule set_eqI)
    fix i show "i \<in> ?S \<longleftrightarrow> i \<in> (if a \<noteq> b then {0} else {}) \<union> Suc ` ?T"
      by (cases i) (auto simp: image_iff)
  qed
  have "card ?S = card (if a \<noteq> b then {0::nat} else {}) + card (Suc ` ?T)"
    unfolding split by (rule card_Un_disjoint) (auto simp: fin)
  also have "card (Suc ` ?T) = card ?T"
    by (rule card_image) simp
  finally show ?case using 1 by simp
qed simp_all

text \<open>
  C2. For every resolved paragraph or line, \<open>countRuns\<close> returns the number of positions
  where the value of the level array changes, plus 1, when the array is nonempty, and 0
  when it is empty; no exception is raised.
\<close>

theorem countRuns_level_changes:
  "Bidi_ubidi_countRuns ubidi_countRuns ubidi =
     (if resolved_levels ubidi = [] then 0
      else int (card {i. Suc i < length (resolved_levels ubidi)
                       \<and> resolved_levels ubidi ! i \<noteq> resolved_levels ubidi ! Suc i}) + 1,
      None)"
  by (simp add: Bidi_ubidi_countRuns_def ubidi_countRuns_def count_boundaries_card
      split: list.split)

lemma getRuns_loop_start:
  "getRuns_loop glr (Suc n) s l v \<noteq> [] \<and> getStart (hd (getRuns_loop glr (Suc n) s l v)) = s"
  by (simp split: prod.split)

lemma getRuns_loop_contiguous:
  "Suc i < length (getRuns_loop glr n s l v) \<Longrightarrow>
     getStart (getRuns_loop glr n s l v ! Suc i) = getLimit (getRuns_loop glr n s l v ! i)"
proof (induction n arbitrary: i s l v)
  case 0
  then show ?case by simp
next
  case (Suc n)
  obtain l' v' where step: "glr s (l, v) = (l', v')" by (cases "glr s (l, v)")
  show ?case
  proof (cases i)
    case 0
    with Suc.prems step have "n \<noteq> 0" by (cases n) auto
    then obtain m where "n = Suc m" by (cases n) auto
    with 0 step show ?thesis by (simp split: prod.split)
  next
    case (Suc j)
    with Suc.prems Suc.IH [of j l' l' v'] step show ?thesis by simp
  qed
qed

text \<open>
  C9. For every paragraph or line whose sequence of runs is nonempty, the runs returned by
  \<open>getRuns\<close> follow one another from the start: the first run starts at position 0,
  and of two consecutive runs the later one starts at the limit of the earlier one. This
  holds by the loop of the binding (\<open>start = limit\<close>, line 158), whatever ICU's
  \<open>ubidi_countRuns\<close> and \<open>ubidi_getLogicalRun\<close> return.
\<close>

theorem getRuns_contiguous:
  assumes "Bidi_ubidi_getRuns countRuns getLogicalRun ubidi = Inr runs" and "runs \<noteq> []"
  shows "getStart (hd runs) = 0
     \<and> (\<forall>i. Suc i < length runs \<longrightarrow> getStart (runs ! Suc i) = getLimit (runs ! i))"
proof -
  obtain runCount status where c: "countRuns ubidi = (runCount, status)"
    by (cases "countRuns ubidi")
  from assms(1) c have runs: "runs = getRuns_loop (getLogicalRun ubidi) (nat runCount) 0 0 0"
    by (auto simp: Bidi_ubidi_getRuns_def split: option.splits if_splits)
  with assms(2) obtain n where n: "nat runCount = Suc n"
    by (cases "nat runCount") auto
  have "getStart (hd runs) = 0"
    using getRuns_loop_start [of "getLogicalRun ubidi" n 0 0 0] by (simp only: runs n)
  moreover have "\<forall>i. Suc i < length runs \<longrightarrow> getStart (runs ! Suc i) = getLimit (runs ! i)"
    unfolding runs by (blast intro: getRuns_loop_contiguous)
  ultimately show ?thesis by blast
qed

theorem getRuns_contiguous_witness:
  "Bidi_ubidi_getRuns ubidi_countRuns ubidi_getLogicalRun \<lparr>resolved_levels = [0, 1, 1]\<rparr>
     = Inr [Run 0 1 0, Run 1 3 1]
   \<and> [Run 0 1 0, Run 1 3 1] \<noteq> []
   \<and> getStart (hd [Run 0 1 0, Run 1 3 1]) = 0
   \<and> getStart ([Run 0 1 0, Run 1 3 1] ! Suc 0) = getLimit ([Run 0 1 0, Run 1 3 1] ! 0)"
proof -
  have call: "Bidi_ubidi_getRuns ubidi_countRuns ubidi_getLogicalRun \<lparr>resolved_levels = [0, 1, 1]\<rparr>
      = Inr [Run 0 1 0, Run 1 3 1]"
    by code_simp
  have nonempty: "[Run 0 1 0, Run 1 3 1] \<noteq> []" by simp
  from getRuns_contiguous [OF call nonempty] call show ?thesis by simp
qed

subsection \<open>Paragraphs\<close>

lemma GetByteArrayRegion_prefix:
  "0 \<le> len \<Longrightarrow> len \<le> int (length array) \<Longrightarrow> GetByteArrayRegion array 0 len = Some (take (nat len) array)"
  by (simp add: GetByteArrayRegion_def)

lemma setPara_copies_prefix:
  assumes "0 \<le> len" and "len \<le> int (length emb)"
  shows "Bidi_ubidi_setPara setPara data (Some chars) len paraLevel (Some emb) =
     (case setPara (mBiDi data) chars len (word_of_int paraLevel) (Some (take (nat len) emb)) of
        (ubidi', err) \<Rightarrow>
          Inr (\<lparr>mBiDi = ubidi', mEmbeddingLevels = Some (take (nat len) emb)\<rparr>,
               maybeThrowIcuException ''ubidi_setPara'' err))"
  using assms
  by (simp add: Bidi_ubidi_setPara_def GetByteArrayRegion_prefix setEmbeddingLevels_def
      uBiDi_def embeddingLevels_def split: prod.split)

lemma maybeThrow_InvalidArgument:
  "maybeThrowIcuException f err = Some InvalidArgument \<longleftrightarrow> err = U_ERROR InvalidArgument"
  by (cases err) auto

text \<open>
  C4, as amended. For every text \<open>T\<close> of length \<open>n\<close> and every supplied array of
  external embedding levels with at least \<open>n\<close> entries, the binding checks no length:
  it copies the first \<open>n\<close> entries, and the call is the call with that prefix of
  \<open>n\<close> entries supplied. InvalidArgument is signalled exactly when ICU reports an
  illegal argument for \<open>T\<close> with the prefix.
\<close>

theorem setPara_longer_levels_as_prefix:
  assumes "length chars \<le> length emb"
  shows "Bidi_ubidi_setPara setPara data (Some chars) (int (length chars)) paraLevel (Some emb)
       = Bidi_ubidi_setPara setPara data (Some chars) (int (length chars)) paraLevel
           (Some (take (length chars) emb))
     \<and> ((\<exists>d. Bidi_ubidi_setPara setPara data (Some chars) (int (length chars)) paraLevel (Some emb)
              = Inr (d, Some InvalidArgument))
        \<longleftrightarrow> (\<exists>u. setPara (mBiDi data) chars (int (length chars)) (word_of_int paraLevel)
                    (Some (take (length chars) emb)) = (u, U_ERROR InvalidArgument)))"
proof -
  let ?n = "int (length chars)"
  have a: "0 \<le> ?n" "?n \<le> int (length emb)" "?n \<le> int (length (take (length chars) emb))"
    using assms by simp_all
  have eq: "Bidi_ubidi_setPara setPara data (Some chars) ?n paraLevel (Some emb)
       = Bidi_ubidi_setPara setPara data (Some chars) ?n paraLevel (Some (take (length chars) emb))"
    by (simp add: setPara_copies_prefix [OF a(1) a(2)] setPara_copies_prefix [OF a(1) a(3)])
  have iff: "(\<exists>d. Bidi_ubidi_setPara setPara data (Some chars) ?n paraLevel (Some emb)
              = Inr (d, Some InvalidArgument))
        \<longleftrightarrow> (\<exists>u. setPara (mBiDi data) chars ?n (word_of_int paraLevel)
                    (Some (take (length chars) emb)) = (u, U_ERROR InvalidArgument))"
    by (cases "setPara (mBiDi data) chars ?n (word_of_int paraLevel) (Some (take (length chars) emb))")
       (simp add: setPara_copies_prefix [OF a(1) a(2)] maybeThrow_InvalidArgument)
  from eq iff show ?thesis by blast
qed

text \<open>
  C4, as stated, fails: for the text of one character \<open>a\<close> and an array of two external
  levels, the call is the call with an array of one level, whatever ICU is, so it is not
  true that InvalidArgument is signalled whatever ICU is.
\<close>

theorem setPara_length_mismatch_counterexample:
  "(\<forall>setPara (data :: UBiDi BiDiData).
       Bidi_ubidi_setPara setPara data (Some [0x61]) 1 0 (Some [0, 0])
     = Bidi_ubidi_setPara setPara data (Some [0x61]) 1 0 (Some [0]))
   \<and> \<not> (\<forall>setPara (data :: UBiDi BiDiData). \<exists>d.
       Bidi_ubidi_setPara setPara data (Some [0x61]) 1 0 (Some [0, 0]) = Inr (d, Some InvalidArgument))"
proof (intro conjI allI notI)
  fix setPara and data :: "UBiDi BiDiData"
  show "Bidi_ubidi_setPara setPara data (Some [0x61]) 1 0 (Some [0, 0])
     = Bidi_ubidi_setPara setPara data (Some [0x61]) 1 0 (Some [0])"
    by (simp add: Bidi_ubidi_setPara_def GetByteArrayRegion_def)
next
  assume all: "\<forall>setPara (data :: UBiDi BiDiData). \<exists>d.
       Bidi_ubidi_setPara setPara data (Some [0x61]) 1 0 (Some [0, 0]) = Inr (d, Some InvalidArgument)"
  have "\<exists>d. Bidi_ubidi_setPara (\<lambda>u t n p e. (u, U_ZERO_ERROR))
        \<lparr>mBiDi = \<lparr>resolved_levels = []\<rparr>, mEmbeddingLevels = None\<rparr> (Some [0x61]) 1 0 (Some [0, 0])
      = Inr (d, Some InvalidArgument)"
    using all by blast
  then show False
    by (simp add: Bidi_ubidi_setPara_def GetByteArrayRegion_def)
qed

theorem setPara_longer_levels_as_prefix_witness:
  "\<forall>setPara (data :: UBiDi BiDiData).
     length [0x61, 0x62 :: jchar] \<le> length [0, 0, 1 :: jbyte]
   \<and> Bidi_ubidi_setPara setPara data (Some [0x61, 0x62]) 2 0 (Some [0, 0, 1])
     = Bidi_ubidi_setPara setPara data (Some [0x61, 0x62]) 2 0 (Some [0, 0])"
proof (intro allI)
  fix setPara and data :: "UBiDi BiDiData"
  have h: "length [0x61, 0x62 :: jchar] \<le> length [0, 0, 1 :: jbyte]" by simp
  from setPara_longer_levels_as_prefix [OF h, of setPara data 0] h
  show "length [0x61, 0x62 :: jchar] \<le> length [0, 0, 1 :: jbyte]
   \<and> Bidi_ubidi_setPara setPara data (Some [0x61, 0x62]) 2 0 (Some [0, 0, 1])
     = Bidi_ubidi_setPara setPara data (Some [0x61, 0x62]) 2 0 (Some [0, 0])"
    by simp
qed

end
